theory Spec2Isabelle
  imports Main "HOL-Library.Word"
begin

section \<open>Default safety hooks of the panda CAN gateway\<close>

text \<open>
  A shallow embedding of \<^verbatim>\<open>panda/board/safety/safety_defaults_test.h\<close> and
  \<^verbatim>\<open>panda/board/safety/safety_defaults_HKG.h\<close>. Both headers declare the same
  identifiers; a definition below carries the suffix \<^verbatim>\<open>_test\<close> or \<^verbatim>\<open>_HKG\<close> of
  the header it is translated from. Hooks that write globals take the global store and
  return it updated, next to their C return value.
\<close>

subsection \<open>Machine types\<close>

text \<open>
  \<^verbatim>\<open>int\<close> is 32 bits wide on the target and \<^verbatim>\<open>int16_t\<close> 16 bits. Both are signed:
  a word of these types stands for its two's-complement value \<open>sint\<close>, and \<^verbatim>\<open>x > 0\<close> on
  them is the signed comparison \<open>0 <s x\<close>.
\<close>

type_synonym c_int = "32 word"
type_synonym int16_t = "16 word"
type_synonym uint8_t = "8 word"

text \<open>
  The macros \<^verbatim>\<open>true\<close> and \<^verbatim>\<open>false\<close> of \<^verbatim>\<open>stdbool.h\<close> are the integer constants 1 and 0.
  Returned from a function of result type \<^verbatim>\<open>int\<close> they are these two words; stored in
  an object of type \<^verbatim>\<open>bool\<close> they are \<open>True\<close> and \<open>False\<close>.
\<close>

abbreviation (input) true :: c_int where
  "true \<equiv> 1"

abbreviation (input) false :: c_int where
  "false \<equiv> 0"

subsection \<open>Frames\<close>

text \<open>
  Modelled from the spec: the type \<^verbatim>\<open>CANPacket_t\<close> and the accessor macros \<^verbatim>\<open>GET_BUS\<close>
  and \<^verbatim>\<open>GET_ADDR\<close> are declared outside the two headers. The data model gives a frame
  a source bus, an address and a payload of bytes; the accessors read the first two
  into an \<^verbatim>\<open>int\<close>.
\<close>

record CANPacket_t =
  bus :: c_int
  addr :: c_int
  data :: "uint8_t list"

definition GET_BUS :: "CANPacket_t \<Rightarrow> c_int" where
  "GET_BUS msg = bus msg"

definition GET_ADDR :: "CANPacket_t \<Rightarrow> c_int" where
  "GET_ADDR msg = addr msg"

subsection \<open>Global store\<close>

text \<open>
  The element type of an \<^verbatim>\<open>addr_checks\<close> table is declared outside the two headers and
  no element is ever built here: the only table is \<^verbatim>\<open>default_rx_checks\<close>, whose
  \<^verbatim>\<open>check\<close> pointer is \<^verbatim>\<open>NULL\<close> (\<open>None\<close>).
\<close>

type_synonym AddrCheckStruct = unit

record addr_checks =
  check :: "AddrCheckStruct list option"
  len :: c_int

definition default_rx_checks :: addr_checks where
  "default_rx_checks = \<lparr>check = None, len = 0\<rparr>"

text \<open>The only bus mode either header names.\<close>

datatype can_mode = CAN_MODE_OBD_CAN2

text \<open>
  The globals the hooks read or write. \<^verbatim>\<open>controls_allowed\<close> and the relay-malfunction
  latch belong to the supervising safety code, \<^verbatim>\<open>has_obd\<close> and the bus mode to
  \<^verbatim>\<open>current_board\<close>, \<open>console\<close> is what \<^verbatim>\<open>puts\<close> has printed so far, and the last two
  fields are the file-scope variables of the HKG header.
\<close>

record globals =
  controls_allowed :: bool
  relay_malfunction :: bool
  has_obd :: bool
  board_can_mode :: "can_mode option"
  console :: "string list"
  HKG_forward_bus2 :: bool
  HKG_LKAS_bus0_cnt :: c_int

text \<open>
  Modelled from the spec: \<^verbatim>\<open>relay_malfunction_reset\<close> is defined outside the two
  headers; it is the reset operation of the relay-malfunction latch, which clears it.
\<close>

definition relay_malfunction_reset :: "globals \<Rightarrow> globals" where
  "relay_malfunction_reset g = g\<lparr>relay_malfunction := False\<rparr>"

text \<open>
  Modelled from the spec: \<^verbatim>\<open>current_board->set_can_mode\<close> is a function pointer of
  the board, defined outside the two headers; it is the mutator of the bus mode.
\<close>

definition set_can_mode :: "can_mode \<Rightarrow> globals \<Rightarrow> globals" where
  "set_can_mode m g = g\<lparr>board_can_mode := Some m\<rparr>"

text \<open>
  Modelled from the spec: \<^verbatim>\<open>puts\<close> is the diagnostics output, defined outside the two
  headers; it appends its argument to what has been printed.
\<close>

definition puts :: "string \<Rightarrow> globals \<Rightarrow> globals" where
  "puts a g = g\<lparr>console := console g @ [a]\<rparr>"

text \<open>
  The initialisers of the two file-scope variables of the HKG header
  (\<^verbatim>\<open>bool HKG_forward_bus2 = true; int HKG_LKAS_bus0_cnt = 0;\<close>), over whatever the other
  globals hold at start-up.
\<close>

definition HKG_static_init :: "globals \<Rightarrow> globals" where
  "HKG_static_init g = g\<lparr>HKG_forward_bus2 := True, HKG_LKAS_bus0_cnt := 0\<rparr>"

subsection \<open>safety_defaults_test.h\<close>

definition default_rx_hook_test :: "CANPacket_t \<Rightarrow> c_int" where
  "default_rx_hook_test to_push = true"

definition nooutput_init_test :: "int16_t \<Rightarrow> globals \<Rightarrow> addr_checks \<times> globals" where
  "nooutput_init_test param g =
     (let g1 = g\<lparr>controls_allowed := False\<rparr>;
          g2 = relay_malfunction_reset g1;
          g3 = (if has_obd g2
                then puts (''setting can mode obd'' @ [CHR 0x0A])
                       (set_can_mode CAN_MODE_OBD_CAN2 g2)
                else g2)
      in (default_rx_checks, g3))"

definition nooutput_tx_hook_test :: "CANPacket_t \<Rightarrow> c_int" where
  "nooutput_tx_hook_test to_send = false"

definition nooutput_tx_lin_hook_test :: "c_int \<Rightarrow> uint8_t list \<Rightarrow> c_int \<Rightarrow> c_int" where
  "nooutput_tx_lin_hook_test lin_num dat ln = false"

definition default_fwd_hook_test :: "c_int \<Rightarrow> CANPacket_t \<Rightarrow> c_int" where
  "default_fwd_hook_test bus_num to_fwd =
     (let bus_fwd0 = - 1;
          addr = GET_ADDR to_fwd;
          bus_fwd1 = (if bus_num = 0 then 2 else bus_fwd0);
          bus_fwd2 = (if bus_num = 1 then 20 else bus_fwd1);
          bus_fwd3 = (if bus_num = 2 \<and> addr \<noteq> 832 \<and> addr \<noteq> 1157 then 0 else bus_fwd2)
      in bus_fwd3)"

definition alloutput_init_test :: "int16_t \<Rightarrow> globals \<Rightarrow> addr_checks \<times> globals" where
  "alloutput_init_test param g =
     (let g1 = g\<lparr>controls_allowed := True\<rparr>;
          g2 = relay_malfunction_reset g1
      in (default_rx_checks, g2))"

definition alloutput_tx_hook_test :: "CANPacket_t \<Rightarrow> c_int" where
  "alloutput_tx_hook_test to_send = true"

definition alloutput_tx_lin_hook_test :: "c_int \<Rightarrow> uint8_t list \<Rightarrow> c_int \<Rightarrow> c_int" where
  "alloutput_tx_lin_hook_test lin_num dat ln = true"

subsection \<open>safety_defaults_HKG.h\<close>

definition default_rx_hook_HKG :: "CANPacket_t \<Rightarrow> globals \<Rightarrow> c_int \<times> globals" where
  "default_rx_hook_HKG to_push g =
     (let bus = GET_BUS to_push;
          addr = GET_ADDR to_push;
          g3 =
            (if addr = 832 then
               (let g1 =
                      (if bus = 0 then
                         (let g0 = g\<lparr>HKG_LKAS_bus0_cnt := 10\<rparr>
                          in if HKG_forward_bus2 g0
                             then puts (''  LKAS on bus0: forwarding disabled'' @ [CHR 0x0A])
                                    (g0\<lparr>HKG_forward_bus2 := False\<rparr>)
                             else g0)
                       else g);
                    g2 =
                      (if bus = 2 then
                         (if 0 <s HKG_LKAS_bus0_cnt g1
                          then g1\<lparr>HKG_LKAS_bus0_cnt := HKG_LKAS_bus0_cnt g1 - 1\<rparr>
                          else if \<not> HKG_forward_bus2 g1
                          then puts (''  LKAS on bus2 & not on bus0: forwarding enabled'' @ [CHR 0x0A])
                                 (g1\<lparr>HKG_forward_bus2 := True\<rparr>)
                          else g1)
                       else g1)
                in g2)
             else g)
      in (true, g3))"

definition nooutput_init_HKG :: "int16_t \<Rightarrow> globals \<Rightarrow> addr_checks \<times> globals" where
  "nooutput_init_HKG param g =
     (let g1 = g\<lparr>controls_allowed := False\<rparr>;
          g2 = relay_malfunction_reset g1
      in (default_rx_checks, g2))"

definition nooutput_tx_hook_HKG :: "CANPacket_t \<Rightarrow> c_int" where
  "nooutput_tx_hook_HKG to_send = false"

definition nooutput_tx_lin_hook_HKG :: "c_int \<Rightarrow> uint8_t list \<Rightarrow> c_int \<Rightarrow> c_int" where
  "nooutput_tx_lin_hook_HKG lin_num dat ln = false"

definition default_fwd_hook_HKG :: "c_int \<Rightarrow> CANPacket_t \<Rightarrow> globals \<Rightarrow> c_int" where
  "default_fwd_hook_HKG bus_num to_fwd g =
     (let bus_fwd0 = - 1;
          bus_fwd3 =
            (if HKG_forward_bus2 g then
               (let bus_fwd1 = (if bus_num = 0 then 2 else bus_fwd0);
                    bus_fwd2 = (if bus_num = 2 then 0 else bus_fwd1)
                in bus_fwd2)
             else bus_fwd0)
      in bus_fwd3)"

definition alloutput_init_HKG :: "int16_t \<Rightarrow> globals \<Rightarrow> addr_checks \<times> globals" where
  "alloutput_init_HKG param g =
     (let g1 = g\<lparr>controls_allowed := True\<rparr>;
          g2 = relay_malfunction_reset g1
      in (default_rx_checks, g2))"

definition alloutput_tx_hook_HKG :: "CANPacket_t \<Rightarrow> c_int" where
  "alloutput_tx_hook_HKG to_send = true"

definition alloutput_tx_lin_hook_HKG :: "c_int \<Rightarrow> uint8_t list \<Rightarrow> c_int \<Rightarrow> c_int" where
  "alloutput_tx_lin_hook_HKG lin_num dat ln = true"

subsection \<open>Sequences of hook calls\<close>

text \<open>
  The bus driver calls the hooks of the active policy one after the other, each running
  to completion. Of the five hooks of the HKG header only \<^verbatim>\<open>init\<close> and \<^verbatim>\<open>rx\<close> write
  globals; a run threads the store through a list of such calls.
\<close>

datatype hook_call =
    Init_nooutput int16_t
  | Init_alloutput int16_t
  | Rx CANPacket_t

fun HKG_call :: "hook_call \<Rightarrow> globals \<Rightarrow> globals" where
  "HKG_call (Init_nooutput param) g = snd (nooutput_init_HKG param g)"
| "HKG_call (Init_alloutput param) g = snd (alloutput_init_HKG param g)"
| "HKG_call (Rx to_push) g = snd (default_rx_hook_HKG to_push g)"

fun HKG_run :: "hook_call list \<Rightarrow> globals \<Rightarrow> globals" where
  "HKG_run [] g = g"
| "HKG_run (c # cs) g = HKG_run cs (HKG_call c g)"

subsection \<open>Sample values\<close>

text \<open>
  A frame carrying the watched address 832 (LKAS11) on a given bus, and a store in which
  forwarding is suspended with three frames of hold left; concrete instances of the
  properties below are evaluated on them.
\<close>

definition LKAS11_on :: "c_int \<Rightarrow> CANPacket_t" where
  "LKAS11_on b = \<lparr>bus = b, addr = 832, data = [0, 0, 0, 0, 0, 0, 0, 0]\<rparr>"

definition sample_store :: globals where
  "sample_store =
     \<lparr>controls_allowed = True, relay_malfunction = True, has_obd = True,
      board_can_mode = None, console = [],
      HKG_forward_bus2 = False, HKG_LKAS_bus0_cnt = 3\<rparr>"

section \<open>Auxiliary facts\<close>

lemma sint_dec:
  fixes c :: c_int
  assumes "0 <s c"
  shows "sint (c - 1) = sint c - 1"
proof -
  have pos: "0 < sint c" using assms by (simp add: word_sless_alt)
  have ub: "sint c < 2 ^ 31" using sint_lt [of c] by simp
  have "sint (c - 1) = signed_take_bit 31 (sint c - 1)"
    by (simp add: sint_word_ariths)
  also have "\<dots> = sint c - 1"
    using pos ub by (simp add: signed_take_bit_int_eq_self_iff)
  finally show ?thesis .
qed

lemma sint_sub_of_nat:
  fixes c :: c_int
  assumes "int n \<le> sint c"
  shows "sint (c - of_nat n) = sint c - int n"
  using assms
proof (induction n)
  case 0
  then show ?case by simp
next
  case (Suc n)
  have prev: "sint (c - of_nat n) = sint c - int n"
    using Suc by simp
  have pos: "0 <s c - of_nat n"
    using prev Suc.prems by (simp add: word_sless_alt)
  have "c - of_nat (Suc n) = c - of_nat n - 1"
    by simp
  then have "sint (c - of_nat (Suc n)) = sint (c - of_nat n) - 1"
    using sint_dec [OF pos] by (simp only:)
  then show ?case
    using prev by simp
qed

lemma rx_HKG_other:
  assumes "addr f \<noteq> 832 \<or> (bus f \<noteq> 0 \<and> bus f \<noteq> 2)"
  shows "snd (default_rx_hook_HKG f g) = g"
  using assms by (auto simp add: default_rx_hook_HKG_def GET_BUS_def GET_ADDR_def Let_def)

lemma rx_HKG_bus0:
  assumes "addr f = 832" and "bus f = 0"
  shows "snd (default_rx_hook_HKG f g) =
     (if HKG_forward_bus2 g
      then puts (''  LKAS on bus0: forwarding disabled'' @ [CHR 0x0A])
             (g\<lparr>HKG_LKAS_bus0_cnt := 10, HKG_forward_bus2 := False\<rparr>)
      else g\<lparr>HKG_LKAS_bus0_cnt := 10\<rparr>)"
  using assms by (simp add: default_rx_hook_HKG_def GET_BUS_def GET_ADDR_def Let_def)

lemma rx_HKG_bus2_hold:
  assumes "addr f = 832" and "bus f = 2" and "0 <s HKG_LKAS_bus0_cnt g"
  shows "snd (default_rx_hook_HKG f g) = g\<lparr>HKG_LKAS_bus0_cnt := HKG_LKAS_bus0_cnt g - 1\<rparr>"
  using assms by (simp add: default_rx_hook_HKG_def GET_BUS_def GET_ADDR_def Let_def)

lemma rx_HKG_bus2_quiet:
  assumes "addr f = 832" and "bus f = 2" and "\<not> 0 <s HKG_LKAS_bus0_cnt g"
  shows "snd (default_rx_hook_HKG f g) =
     (if HKG_forward_bus2 g then g
      else puts (''  LKAS on bus2 & not on bus0: forwarding enabled'' @ [CHR 0x0A])
             (g\<lparr>HKG_forward_bus2 := True\<rparr>))"
  using assms by (simp add: default_rx_hook_HKG_def GET_BUS_def GET_ADDR_def Let_def)

lemma HKG_run_append: "HKG_run (cs @ ds) g = HKG_run ds (HKG_run cs g)"
  by (induction cs arbitrary: g) simp_all

lemma bus2_countdown:
  assumes "\<forall>f\<in>set fs. addr f = 832 \<and> bus f = 2"
    and "int (length fs) \<le> sint (HKG_LKAS_bus0_cnt g)"
  shows "HKG_run (map Rx fs) g =
           g\<lparr>HKG_LKAS_bus0_cnt := HKG_LKAS_bus0_cnt g - of_nat (length fs)\<rparr>"
  using assms
proof (induction fs arbitrary: g)
  case Nil
  then show ?case by simp
next
  case (Cons f fs)
  let ?c = "HKG_LKAS_bus0_cnt g"
  have pos: "0 <s ?c" using Cons.prems(2) by (simp add: word_sless_alt)
  have step: "snd (default_rx_hook_HKG f g) = g\<lparr>HKG_LKAS_bus0_cnt := ?c - 1\<rparr>"
    using Cons.prems(1) pos by (simp add: rx_HKG_bus2_hold)
  have rest: "int (length fs) \<le> sint (HKG_LKAS_bus0_cnt (g\<lparr>HKG_LKAS_bus0_cnt := ?c - 1\<rparr>))"
    using Cons.prems(2) sint_dec [OF pos] by simp
  have all: "\<forall>f\<in>set fs. addr f = 832 \<and> bus f = 2"
    using Cons.prems(1) by simp
  have arith: "?c - 1 - of_nat (length fs) = ?c - of_nat (length (f # fs))"
    by simp
  have "HKG_run (map Rx (f # fs)) g = HKG_run (map Rx fs) (g\<lparr>HKG_LKAS_bus0_cnt := ?c - 1\<rparr>)"
    by (simp add: step)
  also have "\<dots> = g\<lparr>HKG_LKAS_bus0_cnt := ?c - 1 - of_nat (length fs)\<rparr>"
    by (simp only: Cons.IH [OF all rest]) simp
  finally show ?case by (simp only: arith)
qed

lemma bus2_resume:
  assumes watched: "\<forall>f\<in>set fs. addr f = 832 \<and> bus f = 2"
    and len: "int (length fs) = sint (HKG_LKAS_bus0_cnt g) + 1"
    and nonneg: "0 \<le> sint (HKG_LKAS_bus0_cnt g)"
    and off: "\<not> HKG_forward_bus2 g"
  shows "HKG_run (map Rx fs) g =
           puts (''  LKAS on bus2 & not on bus0: forwarding enabled'' @ [CHR 0x0A])
             (g\<lparr>HKG_LKAS_bus0_cnt := 0, HKG_forward_bus2 := True\<rparr>)"
proof -
  from len nonneg have ne: "fs \<noteq> []" by auto
  let ?c = "HKG_LKAS_bus0_cnt g"
  let ?gs = "butlast fs" and ?f = "last fs"
  have split: "fs = ?gs @ [?f]" using ne by simp
  have w1: "\<forall>f\<in>set ?gs. addr f = 832 \<and> bus f = 2"
    using watched by (auto dest: in_set_butlastD)
  have w2: "addr ?f = 832 \<and> bus ?f = 2"
    using watched ne by simp
  have "length fs = Suc (length ?gs)"
    using ne by (cases fs rule: rev_cases) simp_all
  then have l1: "int (length ?gs) = sint ?c"
    using len by simp
  have zero: "?c - of_nat (length ?gs) = 0"
  proof -
    have "sint (?c - of_nat (length ?gs)) = 0"
      using sint_sub_of_nat [of "length ?gs" ?c] l1 by simp
    then show ?thesis by (simp only: signed_eq_0_iff)
  qed
  have "HKG_run (map Rx ?gs) g = g\<lparr>HKG_LKAS_bus0_cnt := 0\<rparr>"
    using bus2_countdown [OF w1, of g] l1 zero by simp
  moreover have "HKG_run (map Rx fs) g = HKG_run [Rx ?f] (HKG_run (map Rx ?gs) g)"
    by (subst split) (simp only: map_append HKG_run_append list.map)
  moreover have "snd (default_rx_hook_HKG ?f (g\<lparr>HKG_LKAS_bus0_cnt := 0\<rparr>)) =
      puts (''  LKAS on bus2 & not on bus0: forwarding enabled'' @ [CHR 0x0A])
             (g\<lparr>HKG_LKAS_bus0_cnt := 0, HKG_forward_bus2 := True\<rparr>)"
    using w2 off by (simp add: rx_HKG_bus2_quiet)
  ultimately show ?thesis by simp
qed

lemma HKG_call_cnt_nonneg:
  assumes "0 \<le> sint (HKG_LKAS_bus0_cnt g)"
  shows "0 \<le> sint (HKG_LKAS_bus0_cnt (HKG_call c g))"
proof (cases c)
  case (Init_nooutput p)
  then show ?thesis
    using assms by (simp add: nooutput_init_HKG_def relay_malfunction_reset_def Let_def)
next
  case (Init_alloutput p)
  then show ?thesis
    using assms by (simp add: alloutput_init_HKG_def relay_malfunction_reset_def Let_def)
next
  case (Rx f)
  show ?thesis
  proof (cases "0 <s HKG_LKAS_bus0_cnt g")
    case True
    then show ?thesis
      using Rx assms sint_dec [OF True]
      by (simp add: default_rx_hook_HKG_def GET_BUS_def GET_ADDR_def Let_def puts_def word_sless_alt)
  next
    case False
    then show ?thesis
      using Rx assms
      by (simp add: default_rx_hook_HKG_def GET_BUS_def GET_ADDR_def Let_def puts_def)
  qed
qed

lemma HKG_run_cnt_nonneg:
  assumes "0 \<le> sint (HKG_LKAS_bus0_cnt g)"
  shows "0 \<le> sint (HKG_LKAS_bus0_cnt (HKG_run cs g))"
  using assms by (induction cs arbitrary: g) (simp_all add: HKG_call_cnt_nonneg)

lemma rx_HKG_cnt_cases:
  "HKG_LKAS_bus0_cnt (snd (default_rx_hook_HKG f g)) = HKG_LKAS_bus0_cnt g
   \<or> HKG_LKAS_bus0_cnt (snd (default_rx_hook_HKG f g)) = 10
   \<or> (0 <s HKG_LKAS_bus0_cnt g
        \<and> HKG_LKAS_bus0_cnt (snd (default_rx_hook_HKG f g)) = HKG_LKAS_bus0_cnt g - 1)"
  by (simp add: default_rx_hook_HKG_def GET_BUS_def GET_ADDR_def Let_def puts_def)

lemma bus0_rearmed:
  assumes "\<forall>f\<in>set fs. addr f = 832 \<and> bus f = 0" and "\<not> HKG_forward_bus2 g"
  shows "HKG_run (map Rx fs) (g\<lparr>HKG_LKAS_bus0_cnt := 10\<rparr>) = g\<lparr>HKG_LKAS_bus0_cnt := 10\<rparr>"
  using assms
proof (induction fs)
  case Nil
  show ?case by simp
next
  case (Cons f fs)
  from Cons.prems(1) have w: "\<forall>f\<in>set fs. addr f = 832 \<and> bus f = 0"
    by simp
  have IH: "HKG_run (map Rx fs) (g\<lparr>HKG_LKAS_bus0_cnt := 10\<rparr>) = g\<lparr>HKG_LKAS_bus0_cnt := 10\<rparr>"
    by (rule Cons.IH [OF w Cons.prems(2)])
  have hd: "addr f = 832" "bus f = 0"
    using Cons.prems(1) by simp_all
  have step: "snd (default_rx_hook_HKG f (g\<lparr>HKG_LKAS_bus0_cnt := 10\<rparr>)) = g\<lparr>HKG_LKAS_bus0_cnt := 10\<rparr>"
    using rx_HKG_bus0 [OF hd, of "g\<lparr>HKG_LKAS_bus0_cnt := 10\<rparr>"] Cons.prems(2) by simp
  show ?case
    by (simp only: list.map HKG_run.simps HKG_call.simps step IH)
qed

lemma bus0_repeat:
  assumes watched: "\<forall>f\<in>set fs. addr f = 832 \<and> bus f = 0"
    and ne: "fs \<noteq> []" and off: "\<not> HKG_forward_bus2 g"
  shows "HKG_run (map Rx fs) g = g\<lparr>HKG_LKAS_bus0_cnt := 10\<rparr>"
proof -
  from ne obtain f fs' where fs: "fs = f # fs'"
    by (cases fs) auto
  have hd: "addr f = 832" "bus f = 0" and w: "\<forall>f\<in>set fs'. addr f = 832 \<and> bus f = 0"
    using watched fs by simp_all
  have step: "snd (default_rx_hook_HKG f g) = g\<lparr>HKG_LKAS_bus0_cnt := 10\<rparr>"
    using rx_HKG_bus0 [OF hd, of g] off by simp
  show ?thesis
    by (simp only: fs list.map HKG_run.simps HKG_call.simps step bus0_rearmed [OF w off])
qed

section \<open>Properties\<close>

text \<open>
  C1, as the code has it: start from the initialisers (forwarding enabled, hold count 0)
  and receive address 832 on bus 0; the hold count is then 10 and forwarding is disabled.
  After \<open>k\<close> further receipts of address 832 on bus 2, for every \<open>k\<close> up to 10, the hold
  count is \<open>10 - k\<close> and forwarding is still disabled: the tenth receipt only brings the
  count to 0. The eleventh receipt on bus 2 finds the count at 0 and enables forwarding
  again.
\<close>

theorem hysteresis_trace_resumes_on_eleventh:
  assumes f0: "addr f0 = 832" "bus f0 = 0"
    and fs: "\<forall>f\<in>set fs. addr f = 832 \<and> bus f = 2"
    and len: "length fs = 11"
    and g1: "g1 = snd (default_rx_hook_HKG f0 (HKG_static_init g))"
  shows "HKG_LKAS_bus0_cnt g1 = 10 \<and> \<not> HKG_forward_bus2 g1
    \<and> (\<forall>k\<le>10. sint (HKG_LKAS_bus0_cnt (HKG_run (map Rx (take k fs)) g1)) = 10 - int k
                \<and> \<not> HKG_forward_bus2 (HKG_run (map Rx (take k fs)) g1))
    \<and> HKG_LKAS_bus0_cnt (HKG_run (map Rx fs) g1) = 0
    \<and> HKG_forward_bus2 (HKG_run (map Rx fs) g1)"
proof -
  have cnt1: "HKG_LKAS_bus0_cnt g1 = 10" and off1: "\<not> HKG_forward_bus2 g1"
    using f0 by (simp_all add: g1 rx_HKG_bus0 HKG_static_init_def puts_def)
  have s1: "sint (HKG_LKAS_bus0_cnt g1) = 10"
    by (simp add: cnt1)
  have hold: "sint (HKG_LKAS_bus0_cnt (HKG_run (map Rx (take k fs)) g1)) = 10 - int k
      \<and> \<not> HKG_forward_bus2 (HKG_run (map Rx (take k fs)) g1)" if k: "k \<le> 10" for k
  proof -
    have w: "\<forall>f\<in>set (take k fs). addr f = 832 \<and> bus f = 2"
      using fs by (auto dest: in_set_takeD)
    have l: "length (take k fs) = k"
      using k len by simp
    have b: "int (length (take k fs)) \<le> sint (HKG_LKAS_bus0_cnt g1)"
      unfolding l s1 using k by simp
    have run: "HKG_run (map Rx (take k fs)) g1 =
        g1\<lparr>HKG_LKAS_bus0_cnt := HKG_LKAS_bus0_cnt g1 - of_nat k\<rparr>"
      using bus2_countdown [OF w b] by (simp only: l)
    have "sint (HKG_LKAS_bus0_cnt g1 - of_nat k) = 10 - int k"
      using sint_sub_of_nat [of k "HKG_LKAS_bus0_cnt g1"] k unfolding s1 by simp
    then show ?thesis
      using off1 by (simp add: run)
  qed
  have l11: "int (length fs) = sint (HKG_LKAS_bus0_cnt g1) + 1"
    unfolding len s1 by simp
  have nn: "0 \<le> sint (HKG_LKAS_bus0_cnt g1)"
    unfolding s1 by simp
  have fin: "HKG_LKAS_bus0_cnt (HKG_run (map Rx fs) g1) = 0
      \<and> HKG_forward_bus2 (HKG_run (map Rx fs) g1)"
    by (simp add: bus2_resume [OF fs l11 nn off1] puts_def)
  show ?thesis
    using cnt1 off1 hold fin by blast
qed


text \<open>The trace on eleven sample frames: hold count 1 after nine, still disabled after ten.\<close>

theorem hysteresis_trace_resumes_on_eleventh_witness:
  "HKG_LKAS_bus0_cnt (snd (default_rx_hook_HKG (LKAS11_on 0) (HKG_static_init sample_store))) = 10
   \<and> sint (HKG_LKAS_bus0_cnt (HKG_run (map Rx (take 9 (replicate 11 (LKAS11_on 2))))
        (snd (default_rx_hook_HKG (LKAS11_on 0) (HKG_static_init sample_store))))) = 1
   \<and> \<not> HKG_forward_bus2 (HKG_run (map Rx (take 10 (replicate 11 (LKAS11_on 2))))
        (snd (default_rx_hook_HKG (LKAS11_on 0) (HKG_static_init sample_store))))
   \<and> HKG_forward_bus2 (HKG_run (map Rx (replicate 11 (LKAS11_on 2)))
        (snd (default_rx_hook_HKG (LKAS11_on 0) (HKG_static_init sample_store))))"
proof -
  have a: "addr (LKAS11_on 0) = 832" "bus (LKAS11_on 0) = 0"
    by (simp_all add: LKAS11_on_def)
  have b: "\<forall>f\<in>set (replicate 11 (LKAS11_on 2)). addr f = 832 \<and> bus f = 2"
    by (simp add: LKAS11_on_def)
  have c: "length (replicate 11 (LKAS11_on 2)) = 11"
    by simp
  note t = hysteresis_trace_resumes_on_eleventh [OF a b c refl, of sample_store]
  from t have "sint (HKG_LKAS_bus0_cnt (HKG_run (map Rx (take 9 (replicate 11 (LKAS11_on 2))))
        (snd (default_rx_hook_HKG (LKAS11_on 0) (HKG_static_init sample_store))))) = 10 - int 9"
    by (meson numeral_le_iff semiring_norm)
  moreover from t have "\<not> HKG_forward_bus2 (HKG_run (map Rx (take 10 (replicate 11 (LKAS11_on 2))))
        (snd (default_rx_hook_HKG (LKAS11_on 0) (HKG_static_init sample_store))))"
    by (meson order_refl)
  ultimately show ?thesis
    using t by simp
qed

text \<open>
  After the bus-0 receipt and exactly ten receipts of address 832 on bus 2, forwarding
  has not resumed.
\<close>

theorem tenth_bus2_frame_does_not_resume:
  "\<not> HKG_forward_bus2 (HKG_run (map Rx (replicate 10 (LKAS11_on 2)))
        (snd (default_rx_hook_HKG (LKAS11_on 0) (HKG_static_init sample_store))))"
  by code_simp

text \<open>
  C2: in the HKG header, for every frame, the forwarding hook sends bus 0 to bus 2 and
  bus 2 to bus 0 while \<^verbatim>\<open>HKG_forward_bus2\<close> is true, returns -1 for both buses while it is
  false, and returns -1 for every other source bus whatever the flag.
\<close>

theorem fwd_hook_HKG_gated:
  "(HKG_forward_bus2 g \<longrightarrow>
      default_fwd_hook_HKG 0 to_fwd g = 2 \<and> default_fwd_hook_HKG 2 to_fwd g = 0)
   \<and> (\<not> HKG_forward_bus2 g \<longrightarrow>
      default_fwd_hook_HKG 0 to_fwd g = - 1 \<and> default_fwd_hook_HKG 2 to_fwd g = - 1)
   \<and> (bus_num \<noteq> 0 \<and> bus_num \<noteq> 2 \<longrightarrow> default_fwd_hook_HKG bus_num to_fwd g = - 1)"
  by (simp add: default_fwd_hook_HKG_def Let_def)

text \<open>Forwarding on and off on the sample values, and source bus 1.\<close>

theorem fwd_hook_HKG_gated_witness:
  "default_fwd_hook_HKG 0 (LKAS11_on 0) (HKG_static_init sample_store) = 2
   \<and> default_fwd_hook_HKG 2 (LKAS11_on 2) (HKG_static_init sample_store) = 0
   \<and> default_fwd_hook_HKG 0 (LKAS11_on 0) sample_store = - 1
   \<and> default_fwd_hook_HKG 2 (LKAS11_on 2) sample_store = - 1
   \<and> default_fwd_hook_HKG 1 (LKAS11_on 1) (HKG_static_init sample_store) = - 1"
  using fwd_hook_HKG_gated [of "HKG_static_init sample_store" "LKAS11_on 0" 1]
    fwd_hook_HKG_gated [of "HKG_static_init sample_store" "LKAS11_on 2" 1]
    fwd_hook_HKG_gated [of "HKG_static_init sample_store" "LKAS11_on 1" 1]
    fwd_hook_HKG_gated [of sample_store "LKAS11_on 0" 1]
    fwd_hook_HKG_gated [of sample_store "LKAS11_on 2" 1]
  by (simp add: HKG_static_init_def sample_store_def)

text \<open>
  C3: in the test header, for every frame, the forwarding hook sends bus 0 to bus 2 and
  bus 1 to bus 20; from bus 2 it returns -1 for the addresses 832 and 1157 and 0 for
  every other address; for every source bus other than 0, 1 and 2 it returns -1.
\<close>

theorem fwd_hook_test_routes:
  "default_fwd_hook_test 0 to_fwd = 2
   \<and> default_fwd_hook_test 1 to_fwd = 20
   \<and> (addr to_fwd = 832 \<or> addr to_fwd = 1157 \<longrightarrow> default_fwd_hook_test 2 to_fwd = - 1)
   \<and> (addr to_fwd \<noteq> 832 \<and> addr to_fwd \<noteq> 1157 \<longrightarrow> default_fwd_hook_test 2 to_fwd = 0)
   \<and> (bus_num \<noteq> 0 \<and> bus_num \<noteq> 1 \<and> bus_num \<noteq> 2 \<longrightarrow> default_fwd_hook_test bus_num to_fwd = - 1)"
  by (simp add: default_fwd_hook_test_def GET_ADDR_def Let_def)

text \<open>The two protected addresses, address 999, and source bus 3.\<close>

theorem fwd_hook_test_routes_witness:
  "default_fwd_hook_test 2 (LKAS11_on 2) = - 1
   \<and> default_fwd_hook_test 2 \<lparr>bus = 2, addr = 1157, data = []\<rparr> = - 1
   \<and> default_fwd_hook_test 2 \<lparr>bus = 2, addr = 999, data = []\<rparr> = 0
   \<and> default_fwd_hook_test 3 \<lparr>bus = 3, addr = 999, data = []\<rparr> = - 1"
  using fwd_hook_test_routes [of "LKAS11_on 2" 3]
    fwd_hook_test_routes [of "\<lparr>bus = 2, addr = 1157, data = []\<rparr>" 3]
    fwd_hook_test_routes [of "\<lparr>bus = 2, addr = 999, data = []\<rparr>" 3]
    fwd_hook_test_routes [of "\<lparr>bus = 3, addr = 999, data = []\<rparr>" 3]
  by (simp add: LKAS11_on_def)

text \<open>
  C4: in both headers the no-output policy refuses every frame and every LIN message,
  and its \<^verbatim>\<open>init\<close>, for every parameter and from every store, leaves \<^verbatim>\<open>controls_allowed\<close>
  false and the relay-malfunction latch cleared.
\<close>

theorem nooutput_policy:
  "nooutput_tx_hook_test to_send = false
   \<and> nooutput_tx_lin_hook_test lin_num dat ln = false
   \<and> nooutput_tx_hook_HKG to_send = false
   \<and> nooutput_tx_lin_hook_HKG lin_num dat ln = false
   \<and> \<not> controls_allowed (snd (nooutput_init_test param g))
   \<and> \<not> relay_malfunction (snd (nooutput_init_test param g))
   \<and> \<not> controls_allowed (snd (nooutput_init_HKG param g))
   \<and> \<not> relay_malfunction (snd (nooutput_init_HKG param g))"
  by (simp add: nooutput_tx_hook_test_def nooutput_tx_lin_hook_test_def
      nooutput_tx_hook_HKG_def nooutput_tx_lin_hook_HKG_def
      nooutput_init_test_def nooutput_init_HKG_def
      relay_malfunction_reset_def set_can_mode_def puts_def Let_def)

text \<open>
  C5: in both headers the all-output policy permits every frame and every LIN message,
  and its \<^verbatim>\<open>init\<close>, for every parameter and from every store, leaves \<^verbatim>\<open>controls_allowed\<close>
  true and the relay-malfunction latch cleared.
\<close>

theorem alloutput_policy:
  "alloutput_tx_hook_test to_send = true
   \<and> alloutput_tx_lin_hook_test lin_num dat ln = true
   \<and> alloutput_tx_hook_HKG to_send = true
   \<and> alloutput_tx_lin_hook_HKG lin_num dat ln = true
   \<and> controls_allowed (snd (alloutput_init_test param g))
   \<and> \<not> relay_malfunction (snd (alloutput_init_test param g))
   \<and> controls_allowed (snd (alloutput_init_HKG param g))
   \<and> \<not> relay_malfunction (snd (alloutput_init_HKG param g))"
  by (simp add: alloutput_tx_hook_test_def alloutput_tx_lin_hook_test_def
      alloutput_tx_hook_HKG_def alloutput_tx_lin_hook_HKG_def
      alloutput_init_test_def alloutput_init_HKG_def
      relay_malfunction_reset_def Let_def)

text \<open>
  C6: the receive hook returns true for every frame, in the test header and in the HKG
  header, whatever the frame's bus, address and payload and whatever the globals hold.
\<close>

theorem rx_hook_always_accepts:
  "default_rx_hook_test to_push = true \<and> fst (default_rx_hook_HKG to_push g) = true"
  by (simp add: default_rx_hook_test_def default_rx_hook_HKG_def Let_def)

text \<open>
  C7: the receive hook of the HKG header writes \<^verbatim>\<open>HKG_forward_bus2\<close>, and prints the
  message that goes with the write, only on an edge. A receipt of address 832 on bus 0
  leaves the flag false and the hold count 10, and prints exactly when the flag was true
  before. A receipt of address 832 on bus 2 with no hold left (in particular with hold
  count 0) leaves the flag true, and prints exactly when the flag was false before. For
  every frame, nothing is printed when the flag keeps its value and one line is printed
  when it changes. A receipt on bus 0 while the flag is already false changes nothing but
  the hold count, which becomes 10, and so does any non-empty sequence of such receipts.
\<close>

theorem forward_bus2_edge_triggered:
  assumes g': "g' = snd (default_rx_hook_HKG f g)"
  shows "(addr f = 832 \<and> bus f = 0 \<longrightarrow>
            \<not> HKG_forward_bus2 g' \<and> HKG_LKAS_bus0_cnt g' = 10
            \<and> console g' =
                (if HKG_forward_bus2 g
                 then console g @ [''  LKAS on bus0: forwarding disabled'' @ [CHR 0x0A]]
                 else console g))
    \<and> (addr f = 832 \<and> bus f = 2 \<and> \<not> 0 <s HKG_LKAS_bus0_cnt g \<longrightarrow>
            HKG_forward_bus2 g' \<and> HKG_LKAS_bus0_cnt g' = HKG_LKAS_bus0_cnt g
            \<and> console g' =
                (if HKG_forward_bus2 g
                 then console g
                 else console g @ [''  LKAS on bus2 & not on bus0: forwarding enabled'' @ [CHR 0x0A]]))
    \<and> (HKG_forward_bus2 g' = HKG_forward_bus2 g \<longrightarrow> console g' = console g)
    \<and> (HKG_forward_bus2 g' \<noteq> HKG_forward_bus2 g \<longrightarrow> length (console g') = Suc (length (console g)))
    \<and> (addr f = 832 \<and> bus f = 0 \<and> \<not> HKG_forward_bus2 g \<longrightarrow>
            g' = g\<lparr>HKG_LKAS_bus0_cnt := 10\<rparr>)
    \<and> ((\<forall>x\<in>set fs. addr x = 832 \<and> bus x = 0) \<and> fs \<noteq> [] \<and> \<not> HKG_forward_bus2 g \<longrightarrow>
            HKG_run (map Rx fs) g = g\<lparr>HKG_LKAS_bus0_cnt := 10\<rparr>)"
proof -
  have bus0: "\<not> HKG_forward_bus2 g' \<and> HKG_LKAS_bus0_cnt g' = 10
      \<and> console g' =
          (if HKG_forward_bus2 g
           then console g @ [''  LKAS on bus0: forwarding disabled'' @ [CHR 0x0A]]
           else console g)"
    if "addr f = 832" "bus f = 0"
    using that by (simp add: g' rx_HKG_bus0 puts_def)
  have bus2: "HKG_forward_bus2 g' \<and> HKG_LKAS_bus0_cnt g' = HKG_LKAS_bus0_cnt g
      \<and> console g' =
          (if HKG_forward_bus2 g
           then console g
           else console g @ [''  LKAS on bus2 & not on bus0: forwarding enabled'' @ [CHR 0x0A]])"
    if "addr f = 832" "bus f = 2" "\<not> 0 <s HKG_LKAS_bus0_cnt g"
    using that by (simp add: g' rx_HKG_bus2_quiet puts_def)
  have level: "console g' = console g" if "HKG_forward_bus2 g' = HKG_forward_bus2 g"
    using that
    by (auto simp add: g' default_rx_hook_HKG_def GET_BUS_def GET_ADDR_def Let_def puts_def
        split: if_splits)
  have edge: "length (console g') = Suc (length (console g))"
    if "HKG_forward_bus2 g' \<noteq> HKG_forward_bus2 g"
    using that
    by (auto simp add: g' default_rx_hook_HKG_def GET_BUS_def GET_ADDR_def Let_def puts_def
        split: if_splits)
  have again: "g' = g\<lparr>HKG_LKAS_bus0_cnt := 10\<rparr>"
    if "addr f = 832" "bus f = 0" "\<not> HKG_forward_bus2 g"
    using that by (simp add: g' rx_HKG_bus0)
  have many: "HKG_run (map Rx fs) g = g\<lparr>HKG_LKAS_bus0_cnt := 10\<rparr>"
    if "\<forall>x\<in>set fs. addr x = 832 \<and> bus x = 0" "fs \<noteq> []" "\<not> HKG_forward_bus2 g"
    using that by (rule bus0_repeat)
  show ?thesis
    using bus0 bus2 level edge again many by blast
qed


text \<open>
  A repeated bus-0 receipt with forwarding off, the falling edge, the rising edge, and
  three bus-0 receipts in a row, on the sample values.
\<close>

theorem forward_bus2_edge_triggered_witness:
  "snd (default_rx_hook_HKG (LKAS11_on 0) sample_store) = sample_store\<lparr>HKG_LKAS_bus0_cnt := 10\<rparr>
   \<and> console (snd (default_rx_hook_HKG (LKAS11_on 0) (HKG_static_init sample_store))) =
        [''  LKAS on bus0: forwarding disabled'' @ [CHR 0x0A]]
   \<and> HKG_forward_bus2 (snd (default_rx_hook_HKG (LKAS11_on 2) (sample_store\<lparr>HKG_LKAS_bus0_cnt := 0\<rparr>)))
   \<and> HKG_run (map Rx [LKAS11_on 0, LKAS11_on 0, LKAS11_on 0]) sample_store =
        sample_store\<lparr>HKG_LKAS_bus0_cnt := 10\<rparr>"
proof -
  have a: "addr (LKAS11_on 0) = 832 \<and> bus (LKAS11_on 0) = 0"
    and b: "addr (LKAS11_on 2) = 832 \<and> bus (LKAS11_on 2) = 2"
    by (simp_all add: LKAS11_on_def)
  have off: "\<not> HKG_forward_bus2 sample_store"
    and on: "HKG_forward_bus2 (HKG_static_init sample_store)"
    and empty: "console (HKG_static_init sample_store) = []"
    and quiet: "\<not> 0 <s HKG_LKAS_bus0_cnt (sample_store\<lparr>HKG_LKAS_bus0_cnt := 0\<rparr>)"
    and off0: "\<not> HKG_forward_bus2 (sample_store\<lparr>HKG_LKAS_bus0_cnt := 0\<rparr>)"
    by (simp_all add: sample_store_def HKG_static_init_def)
  have three: "(\<forall>x\<in>set [LKAS11_on 0, LKAS11_on 0, LKAS11_on 0]. addr x = 832 \<and> bus x = 0)
      \<and> [LKAS11_on 0, LKAS11_on 0, LKAS11_on 0] \<noteq> []"
    using a by simp
  note again = forward_bus2_edge_triggered [OF refl, of "LKAS11_on 0" sample_store
      "[LKAS11_on 0, LKAS11_on 0, LKAS11_on 0]"]
  note falling = forward_bus2_edge_triggered [OF refl, of "LKAS11_on 0"
      "HKG_static_init sample_store" "[]"]
  note rising = forward_bus2_edge_triggered [OF refl, of "LKAS11_on 2"
      "sample_store\<lparr>HKG_LKAS_bus0_cnt := 0\<rparr>" "[]"]
  have c1: "snd (default_rx_hook_HKG (LKAS11_on 0) sample_store) =
      sample_store\<lparr>HKG_LKAS_bus0_cnt := 10\<rparr>"
    using again a off by blast
  have c2: "console (snd (default_rx_hook_HKG (LKAS11_on 0) (HKG_static_init sample_store))) =
      (if HKG_forward_bus2 (HKG_static_init sample_store)
       then console (HKG_static_init sample_store) @ [''  LKAS on bus0: forwarding disabled'' @ [CHR 0x0A]]
       else console (HKG_static_init sample_store))"
    using falling a by blast
  have c3: "HKG_forward_bus2 (snd (default_rx_hook_HKG (LKAS11_on 2)
      (sample_store\<lparr>HKG_LKAS_bus0_cnt := 0\<rparr>)))"
    using rising b quiet by blast
  have c4: "HKG_run (map Rx [LKAS11_on 0, LKAS11_on 0, LKAS11_on 0]) sample_store =
      sample_store\<lparr>HKG_LKAS_bus0_cnt := 10\<rparr>"
    using again three off by blast
  show ?thesis
    using c1 c2 c3 c4 by (simp only: on empty if_True append_Nil simp_thms)
qed

text \<open>
  C8: \<^verbatim>\<open>HKG_LKAS_bus0_cnt\<close> is never negative. It is 0 after the initialisers; the receive
  hook keeps it non-negative, for every frame; it is therefore non-negative after every
  sequence of \<^verbatim>\<open>init\<close> and \<^verbatim>\<open>rx\<close> calls from the initial store. One call of the receive
  hook leaves the count as it was, sets it to 10, or decrements it from a strictly
  positive value.
\<close>

theorem bus0_cnt_never_negative:
  "0 \<le> sint (HKG_LKAS_bus0_cnt (HKG_static_init g0))
   \<and> (0 \<le> sint (HKG_LKAS_bus0_cnt g) \<longrightarrow>
        0 \<le> sint (HKG_LKAS_bus0_cnt (snd (default_rx_hook_HKG f g))))
   \<and> 0 \<le> sint (HKG_LKAS_bus0_cnt (HKG_run cs (HKG_static_init g0)))
   \<and> (HKG_LKAS_bus0_cnt (snd (default_rx_hook_HKG f g)) = HKG_LKAS_bus0_cnt g
        \<or> HKG_LKAS_bus0_cnt (snd (default_rx_hook_HKG f g)) = 10
        \<or> (0 <s HKG_LKAS_bus0_cnt g
            \<and> HKG_LKAS_bus0_cnt (snd (default_rx_hook_HKG f g)) = HKG_LKAS_bus0_cnt g - 1))"
proof -
  have start: "0 \<le> sint (HKG_LKAS_bus0_cnt (HKG_static_init g0))"
    by (simp add: HKG_static_init_def)
  have step: "0 \<le> sint (HKG_LKAS_bus0_cnt (snd (default_rx_hook_HKG f g)))"
    if "0 \<le> sint (HKG_LKAS_bus0_cnt g)"
    using HKG_call_cnt_nonneg [OF that, of "Rx f"] by simp
  have run: "0 \<le> sint (HKG_LKAS_bus0_cnt (HKG_run cs (HKG_static_init g0)))"
    using start by (rule HKG_run_cnt_nonneg)
  show ?thesis
    using start step run rx_HKG_cnt_cases [of f g] by blast
qed

text \<open>One step from a store with hold count 3, and a run of three calls.\<close>

theorem bus0_cnt_never_negative_witness:
  "0 \<le> sint (HKG_LKAS_bus0_cnt sample_store)
   \<and> 0 \<le> sint (HKG_LKAS_bus0_cnt (snd (default_rx_hook_HKG (LKAS11_on 2) sample_store)))
   \<and> 0 \<le> sint (HKG_LKAS_bus0_cnt
        (HKG_run [Rx (LKAS11_on 0), Init_nooutput 0, Rx (LKAS11_on 2)] (HKG_static_init sample_store)))"
proof -
  have "0 \<le> sint (HKG_LKAS_bus0_cnt sample_store)"
    by (simp add: sample_store_def)
  then show ?thesis
    using bus0_cnt_never_negative [of sample_store sample_store "LKAS11_on 2"
        "[Rx (LKAS11_on 0), Init_nooutput 0, Rx (LKAS11_on 2)]"]
    by blast
qed

text \<open>
  C9: the forwarding hook of the HKG header returns the same destination for any two
  frames, and for any two stores that agree on \<^verbatim>\<open>HKG_forward_bus2\<close>: its result depends on
  the source bus and that flag alone.
\<close>

theorem fwd_hook_HKG_noninterference:
  assumes "HKG_forward_bus2 g1 = HKG_forward_bus2 g2"
  shows "default_fwd_hook_HKG bus_num f1 g1 = default_fwd_hook_HKG bus_num f2 g2"
  using assms by (simp add: default_fwd_hook_HKG_def Let_def)

text \<open>Two frames of different address and payload, two stores that differ elsewhere.\<close>

theorem fwd_hook_HKG_noninterference_witness:
  "default_fwd_hook_HKG 2 (LKAS11_on 2) (HKG_static_init sample_store) =
   default_fwd_hook_HKG 2 \<lparr>bus = 2, addr = 999, data = [1, 2, 3]\<rparr>
     (HKG_static_init sample_store\<lparr>HKG_LKAS_bus0_cnt := 7, controls_allowed := False\<rparr>)"
proof -
  have "HKG_forward_bus2 (HKG_static_init sample_store) =
      HKG_forward_bus2 (HKG_static_init sample_store\<lparr>HKG_LKAS_bus0_cnt := 7, controls_allowed := False\<rparr>)"
    by (simp add: HKG_static_init_def)
  then show ?thesis
    by (rule fwd_hook_HKG_noninterference)
qed

text \<open>
  C10: the receive hook of the HKG header leaves \<^verbatim>\<open>HKG_forward_bus2\<close> and
  \<^verbatim>\<open>HKG_LKAS_bus0_cnt\<close>, and indeed the whole store, unchanged for every frame whose address
  is not 832 and for every frame of address 832 on a bus other than 0 and 2.
\<close>

theorem rx_hook_HKG_frame_condition:
  assumes "addr f \<noteq> 832 \<or> (addr f = 832 \<and> bus f \<noteq> 0 \<and> bus f \<noteq> 2)"
  shows "HKG_forward_bus2 (snd (default_rx_hook_HKG f g)) = HKG_forward_bus2 g
    \<and> HKG_LKAS_bus0_cnt (snd (default_rx_hook_HKG f g)) = HKG_LKAS_bus0_cnt g
    \<and> snd (default_rx_hook_HKG f g) = g"
proof -
  have "snd (default_rx_hook_HKG f g) = g"
    using assms by (intro rx_HKG_other) blast
  then show ?thesis by simp
qed

text \<open>Address 832 on bus 1, and address 1157 on bus 0.\<close>

theorem rx_hook_HKG_frame_condition_witness:
  "snd (default_rx_hook_HKG (LKAS11_on 1) sample_store) = sample_store
   \<and> snd (default_rx_hook_HKG \<lparr>bus = 0, addr = 1157, data = []\<rparr> sample_store) = sample_store"
proof -
  have "addr (LKAS11_on 1) \<noteq> 832
      \<or> (addr (LKAS11_on 1) = 832 \<and> bus (LKAS11_on 1) \<noteq> 0 \<and> bus (LKAS11_on 1) \<noteq> 2)"
    by (simp add: LKAS11_on_def)
  moreover have "addr \<lparr>bus = 0, addr = 1157, data = []\<rparr> \<noteq> (832 :: c_int)
      \<or> (addr \<lparr>bus = 0, addr = 1157, data = []\<rparr> = (832 :: c_int)
          \<and> bus \<lparr>bus = 0, addr = 1157, data = []\<rparr> \<noteq> (0 :: c_int)
          \<and> bus \<lparr>bus = 0, addr = 1157, data = []\<rparr> \<noteq> (2 :: c_int))"
    by simp
  ultimately show ?thesis
    using rx_hook_HKG_frame_condition [of "LKAS11_on 1" sample_store]
      rx_hook_HKG_frame_condition [of "\<lparr>bus = 0, addr = 1157, data = []\<rparr>" sample_store]
    by blast
qed

end
